theory Spec2Isabelle
  imports Main "HOL-Library.Word"
begin

section \<open>The USB redirection channel (channel-usbredir.c)\<close>

text \<open>
  A shallow embedding of \<^verbatim>\<open>channel-usbredir.c\<close>. The private structure of the channel
  is a record, every function of the file is a function from the private structure to
  the updated structure and the list of calls it made into its collaborators (libusb,
  the usbredirhost engine, the ACL helper, the generic channel, GLib), in program order.
  The compile-time switch \<^verbatim>\<open>USE_POLKIT\<close> is the first argument of the functions whose
  text depends on it. Pointers to objects of the collaborators are natural numbers, a
  pointer that may be \<^verbatim>\<open>NULL\<close> is an option. The C \<^verbatim>\<open>int\<close>s are integers: no arithmetic
  of the file leaves the range between zero and a message's size. A failed
  \<^verbatim>\<open>g_return_if_fail\<close> logs GLib's critical warning for its expression and returns, as
  GLib does unless its checks are compiled out. The asynchronous completions (of the
  ACL helper, of the result of a connect) are calls of their own: a result is completed
  "in idle", so what a function does to it is the call \<^verbatim>\<open>complete_in_idle\<close> with the
  result as it then is.
\<close>

subsection \<open>Data\<close>

type_synonym libusb_context = nat
type_synonym libusb_device = nat
type_synonym libusb_device_handle = nat
type_synonym usbredirhost = nat
type_synonym SpiceUsbAclHelper = nat
type_synonym uint8_t = "8 word"

datatype SpiceUsbredirChannelState =
    STATE_DISCONNECTED
  | STATE_WAITING_FOR_ACL_HELPER
  | STATE_CONNECTING
  | STATE_CONNECTED
  | STATE_DISCONNECTING

text \<open>A \<^verbatim>\<open>GError\<close>: domain, code and message. The message of the libusb failure keeps
  the return code it is formatted from.\<close>

datatype error_domain = SPICE_CLIENT_ERROR | G_IO_ERROR | Other_domain string

datatype error_code = SPICE_CLIENT_ERROR_FAILED | G_IO_ERROR_CANCELLED | Other_code int

datatype error_message = Literal string | Could_not_open_usb_device int

datatype GError = GError error_domain error_code error_message

text \<open>A \<^verbatim>\<open>GSimpleAsyncResult\<close> made by \<^verbatim>\<open>g_simple_async_result_new\<close>: the completion
  callback, its user data, and the error it carries (none: the operation succeeded).\<close>

record GSimpleAsyncResult =
  callback :: nat
  user_data :: nat
  error :: "GError option"

datatype log_level = usbredirparser_error | usbredirparser_warning | Other_level int

datatype free_func = Usbredir_free_write_cb_data

datatype marshaller_item = Add_ref_full nat int free_func

datatype msg_type = SPICE_MSGC_SPICEVMC_DATA

record SpiceMsgOut =
  out_type :: msg_type
  marshaller :: "marshaller_item list"

text \<open>The calls a function makes into its collaborators, in program order.\<close>

datatype effect =
    G_return_if_fail_warning string
  | SPICE_DEBUG string
  | G_critical string
  | G_warning string
  | Libusb_ref_device libusb_device
  | Libusb_unref_device "libusb_device option"
  | Libusb_open "libusb_device option"
  | Usbredirhost_open_full "libusb_context option" libusb_device_handle
  | Usbredirhost_close "usbredirhost option"
  | Usbredirhost_write_guest_data "usbredirhost option"
  | Usbredirhost_read_guest_data "usbredirhost option" "(int \<times> uint8_t list) list"
  | Usbredirhost_free_write_buffer "usbredirhost option" nat
  | Start_event_listening
  | Stop_event_listening
  | Spice_channel_connect
  | Spice_channel_disconnect
  | Spice_usb_acl_helper_open_acl SpiceUsbAclHelper libusb_device nat
  | Spice_usb_acl_helper_close_acl "SpiceUsbAclHelper option"
  | Set_inhibit_keyboard_grab bool
  | G_simple_async_result_complete_in_idle "GSimpleAsyncResult option"
  | Spice_msg_out_send SpiceMsgOut

record SpiceUsbredirChannelPrivate =
  context' :: "libusb_context option"
  device :: "libusb_device option"
  host :: "usbredirhost option"
  catch_error :: bool
  read_buf :: "uint8_t list option"
  read_buf_size :: int
  state :: SpiceUsbredirChannelState
  result :: "GSimpleAsyncResult option"
  acl_helper :: "SpiceUsbAclHelper option"

text \<open>
  What the collaborators answer during one attempt to open the device:
  the return code of \<^verbatim>\<open>libusb_open\<close> and the handle it gives, the engine
  \<^verbatim>\<open>usbredirhost_open_full\<close> returns (none: \<^verbatim>\<open>NULL\<close>) with the lines it logs through
  the log callback while it runs, the error of
  \<^verbatim>\<open>spice_usb_device_manager_start_event_listening\<close> (none: it returns \<^verbatim>\<open>TRUE\<close>), and the
  object \<^verbatim>\<open>spice_usb_acl_helper_new\<close> returns.
\<close>

record usb_env =
  libusb_open_rc :: int
  libusb_open_handle :: libusb_device_handle
  open_full_host :: "usbredirhost option"
  open_full_log :: "(log_level \<times> string) list"
  start_event_listening_error :: "GError option"
  acl_helper_new :: SpiceUsbAclHelper

subsection \<open>GLib\<close>

text \<open>\<^verbatim>\<open>g_set_error\<close> keeps an error that is already set.\<close>

definition g_set_error :: "GError option \<Rightarrow> GError \<Rightarrow> GError option" where
  "g_set_error err e = (case err of None \<Rightarrow> Some e | Some old \<Rightarrow> Some old)"

text \<open>\<^verbatim>\<open>g_simple_async_result_take_error\<close> returns at once on a \<^verbatim>\<open>NULL\<close> error.\<close>

definition g_simple_async_result_take_error ::
  "GSimpleAsyncResult \<Rightarrow> GError option \<Rightarrow> GSimpleAsyncResult" where
  "g_simple_async_result_take_error r err =
     (case err of None \<Rightarrow> r | Some e \<Rightarrow> r\<lparr>error := Some e\<rparr>)"

subsection \<open>Initialisation\<close>

text \<open>The private structure of a new channel is zero-filled by the type system.\<close>

definition spice_usbredir_channel_init :: SpiceUsbredirChannelPrivate where
  "spice_usbredir_channel_init =
     \<lparr>context' = None, device = None, host = None, catch_error = False,
      read_buf = None, read_buf_size = 0, state = STATE_DISCONNECTED,
      result = None, acl_helper = None\<rparr>"

subsection \<open>The log callback and the opening of the device\<close>

text \<open>\<^verbatim>\<open>usbredir_log\<close>: the second argument is the error the armed slot points to.\<close>

definition usbredir_log ::
  "SpiceUsbredirChannelPrivate \<Rightarrow> GError option \<Rightarrow> log_level \<Rightarrow> string
    \<Rightarrow> GError option \<times> effect list" where
  "usbredir_log p err level msg =
     (if catch_error p \<and> level = usbredirparser_error then
        (g_set_error err (GError SPICE_CLIENT_ERROR SPICE_CLIENT_ERROR_FAILED (Literal msg)),
         [SPICE_DEBUG msg])
      else
        (err,
         [case level of
            usbredirparser_error \<Rightarrow> G_critical msg
          | usbredirparser_warning \<Rightarrow> G_warning msg
          | Other_level n \<Rightarrow> SPICE_DEBUG msg]))"

text \<open>The lines the engine logs while \<^verbatim>\<open>usbredirhost_open_full\<close> runs, each given to
  \<^verbatim>\<open>usbredir_log\<close>.\<close>

fun usbredirhost_open_full_log ::
  "SpiceUsbredirChannelPrivate \<Rightarrow> (log_level \<times> string) list \<Rightarrow> GError option
    \<Rightarrow> GError option \<times> effect list" where
  "usbredirhost_open_full_log p [] err = (err, [])"
| "usbredirhost_open_full_log p ((level, msg) # ls) err =
     (let (err1, e1) = usbredir_log p err level msg;
          (err2, e2) = usbredirhost_open_full_log p ls err1
      in (err2, e1 @ e2))"

definition spice_usbredir_channel_open_device ::
  "bool \<Rightarrow> usb_env \<Rightarrow> SpiceUsbredirChannelPrivate \<Rightarrow> GError option
    \<Rightarrow> bool \<times> SpiceUsbredirChannelPrivate \<times> GError option \<times> effect list" where
  "spice_usbredir_channel_open_device USE_POLKIT env p err =
     (if \<not> (state p = STATE_DISCONNECTED
             \<or> (USE_POLKIT \<and> state p = STATE_WAITING_FOR_ACL_HELPER)) then
        (False, p, err, [G_return_if_fail_warning ''priv->state == STATE_DISCONNECTED''])
      else if libusb_open_rc env \<noteq> 0 then
        (False, p,
         g_set_error err (GError SPICE_CLIENT_ERROR SPICE_CLIENT_ERROR_FAILED
                            (Could_not_open_usb_device (libusb_open_rc env))),
         [Libusb_open (device p)])
      else
        let (err1, logged) =
              usbredirhost_open_full_log (p\<lparr>catch_error := True\<rparr>) (open_full_log env) err;
            p1 = p\<lparr>catch_error := False, host := open_full_host env\<rparr>;
            e1 = [Libusb_open (device p),
                  Usbredirhost_open_full (context' p) (libusb_open_handle env)] @ logged
        in if host p1 = None then
             (False, p1, err1,
              e1 @ (if err1 = None
                    then [G_return_if_fail_warning ''err == NULL || *err != NULL'']
                    else []))
           else
             (case start_event_listening_error env of
                Some e \<Rightarrow>
                  (False, p1\<lparr>host := None\<rparr>, g_set_error err1 e,
                   e1 @ [Start_event_listening, Usbredirhost_close (host p1)])
              | None \<Rightarrow>
                  (True, p1\<lparr>state := STATE_CONNECTING\<rparr>, err1,
                   e1 @ [Start_event_listening, Spice_channel_connect])))"

subsection \<open>The completion of the ACL helper\<close>

definition cancelled_error :: GError where
  "cancelled_error =
     GError G_IO_ERROR G_IO_ERROR_CANCELLED
       (Literal ''USB redirection channel connect cancelled'')"

text \<open>\<^verbatim>\<open>spice_usbredir_channel_open_acl_cb\<close> (with \<^verbatim>\<open>USE_POLKIT\<close>): the second argument is the
  helper that completed, the third the error \<^verbatim>\<open>spice_usb_acl_helper_open_acl_finish\<close>
  reports (none: the ACL was granted).\<close>

definition spice_usbredir_channel_open_acl_cb ::
  "usb_env \<Rightarrow> SpiceUsbAclHelper \<Rightarrow> GError option \<Rightarrow> SpiceUsbredirChannelPrivate
    \<Rightarrow> SpiceUsbredirChannelPrivate \<times> effect list" where
  "spice_usbredir_channel_open_acl_cb env helper acl_res p =
     (if Some helper \<noteq> acl_helper p then
        (p, [G_return_if_fail_warning ''acl_helper == priv->acl_helper''])
      else if \<not> (state p = STATE_WAITING_FOR_ACL_HELPER \<or> state p = STATE_DISCONNECTING) then
        (p, [G_return_if_fail_warning ''priv->state == STATE_WAITING_FOR_ACL_HELPER''])
      else
        let err1 = (if acl_res = None \<and> state p = STATE_DISCONNECTING
                    then Some cancelled_error else acl_res);
            (p2, err2, e2) =
              (if err1 = None then
                 (let (ok, p', err', e') = spice_usbredir_channel_open_device True env p None
                  in (p', err', e'))
               else (p, err1, []));
            (p3, e3) =
              (if err2 \<noteq> None then
                 (p2\<lparr>result := map_option (\<lambda>r. g_simple_async_result_take_error r err2)
                                 (result p2),
                     device := None, context' := None, state := STATE_DISCONNECTED\<rparr>,
                  [Libusb_unref_device (device p2)])
               else (p2, []))
        in (p3\<lparr>acl_helper := None, result := None\<rparr>,
            e2 @ e3 @
            [Spice_usb_acl_helper_close_acl (acl_helper p3),
             Set_inhibit_keyboard_grab False,
             G_simple_async_result_complete_in_idle (result p3)]))"

subsection \<open>Connecting and disconnecting\<close>

definition busy_error :: GError where
  "busy_error =
     GError SPICE_CLIENT_ERROR SPICE_CLIENT_ERROR_FAILED (Literal ''Error channel is busy'')"

definition spice_usbredir_channel_connect_async ::
  "bool \<Rightarrow> usb_env \<Rightarrow> libusb_context option \<Rightarrow> libusb_device option \<Rightarrow> nat \<Rightarrow> nat \<Rightarrow> nat
    \<Rightarrow> SpiceUsbredirChannelPrivate \<Rightarrow> SpiceUsbredirChannelPrivate \<times> effect list" where
  "spice_usbredir_channel_connect_async USE_POLKIT env ctx dev cancellable cb udata p =
     (case ctx of
        None \<Rightarrow> (p, [G_return_if_fail_warning ''context != NULL''])
      | Some c \<Rightarrow>
     (case dev of
        None \<Rightarrow> (p, [G_return_if_fail_warning ''device != NULL''])
      | Some d \<Rightarrow>
        let res = \<lparr>callback = cb, user_data = udata, error = None\<rparr>;
            e0 = [SPICE_DEBUG ''connecting usb channel'']
        in if state p \<noteq> STATE_DISCONNECTED then
             (p, e0 @ [G_simple_async_result_complete_in_idle
                         (Some (res\<lparr>error := Some busy_error\<rparr>))])
           else
             let p1 = p\<lparr>context' := Some c, device := Some d\<rparr>;
                 e1 = e0 @ [Libusb_ref_device d]
             in if USE_POLKIT then
                  (p1\<lparr>result := Some res, state := STATE_WAITING_FOR_ACL_HELPER,
                      acl_helper := Some (acl_helper_new env)\<rparr>,
                   e1 @ [Set_inhibit_keyboard_grab True,
                         Spice_usb_acl_helper_open_acl (acl_helper_new env) d cancellable])
                else
                  let (ok, p2, err, e2) = spice_usbredir_channel_open_device False env p1 None
                  in if \<not> ok then
                       (p2\<lparr>device := None, context' := None\<rparr>,
                        e1 @ e2 @
                        [Libusb_unref_device (device p2),
                         G_simple_async_result_complete_in_idle
                           (Some (g_simple_async_result_take_error res err))])
                     else
                       (p2, e1 @ e2 @ [G_simple_async_result_complete_in_idle (Some res)])))"

definition spice_usbredir_channel_disconnect ::
  "bool \<Rightarrow> SpiceUsbredirChannelPrivate \<Rightarrow> SpiceUsbredirChannelPrivate \<times> effect list" where
  "spice_usbredir_channel_disconnect USE_POLKIT p =
     (let e0 = [SPICE_DEBUG ''disconnecting usb channel'']
      in case state p of
           STATE_DISCONNECTED \<Rightarrow> (p, e0)
         | STATE_DISCONNECTING \<Rightarrow> (p, e0)
         | STATE_WAITING_FOR_ACL_HELPER \<Rightarrow>
             if USE_POLKIT then
               (p\<lparr>state := STATE_DISCONNECTING\<rparr>,
                e0 @ [Spice_usb_acl_helper_close_acl (acl_helper p)])
             else (p, e0)
         | STATE_CONNECTING \<Rightarrow>
             (p\<lparr>host := None, device := None, context' := None, state := STATE_DISCONNECTED\<rparr>,
              e0 @ [Spice_channel_disconnect, Stop_event_listening,
                    Usbredirhost_close (host p), Libusb_unref_device (device p)])
         | STATE_CONNECTED \<Rightarrow>
             (p\<lparr>host := None, device := None, context' := None, state := STATE_DISCONNECTED\<rparr>,
              e0 @ [Spice_channel_disconnect, Stop_event_listening,
                    Usbredirhost_close (host p), Libusb_unref_device (device p)]))"

definition spice_usbredir_channel_get_device ::
  "SpiceUsbredirChannelPrivate \<Rightarrow> libusb_device option" where
  "spice_usbredir_channel_get_device p = device p"

subsection \<open>The callbacks of the engine\<close>

definition usbredir_write_flush_callback ::
  "SpiceUsbredirChannelPrivate \<Rightarrow> SpiceUsbredirChannelPrivate \<times> effect list" where
  "usbredir_write_flush_callback p =
     (if state p \<noteq> STATE_CONNECTED then (p, [])
      else (p, [Usbredirhost_write_guest_data (host p)]))"

text \<open>\<^verbatim>\<open>usbredir_read_callback\<close>: the count it returns, the bytes \<^verbatim>\<open>memcpy\<close> copies to
  the engine's buffer, and the private structure with the view advanced. The view is
  the list of the bytes from \<^verbatim>\<open>read_buf\<close> on.\<close>

definition usbredir_read_callback ::
  "SpiceUsbredirChannelPrivate \<Rightarrow> int
    \<Rightarrow> int \<times> uint8_t list \<times> SpiceUsbredirChannelPrivate" where
  "usbredir_read_callback p count0 =
     (let count = (if read_buf_size p < count0 then read_buf_size p else count0);
          copied = (case read_buf p of None \<Rightarrow> [] | Some bs \<Rightarrow> take (nat count) bs);
          size' = read_buf_size p - count
      in (count, copied,
          p\<lparr>read_buf_size := size',
            read_buf := (if size' \<noteq> 0 then map_option (drop (nat count)) (read_buf p)
                         else None)\<rparr>))"

definition usbredir_free_write_cb_data ::
  "SpiceUsbredirChannelPrivate \<Rightarrow> nat \<Rightarrow> effect list" where
  "usbredir_free_write_cb_data p data = [Usbredirhost_free_write_buffer (host p) data]"

definition usbredir_write_callback ::
  "SpiceUsbredirChannelPrivate \<Rightarrow> nat \<Rightarrow> int \<Rightarrow> int \<times> effect list" where
  "usbredir_write_callback p data count =
     (let msg_out = \<lparr>out_type = SPICE_MSGC_SPICEVMC_DATA, marshaller = []\<rparr>;
          msg_out = msg_out\<lparr>marshaller :=
                      marshaller msg_out @ [Add_ref_full data count Usbredir_free_write_cb_data]\<rparr>
      in (count, [Spice_msg_out_send msg_out]))"

subsection \<open>The upcalls of the generic channel\<close>

definition spice_usbredir_channel_up ::
  "SpiceUsbredirChannelPrivate \<Rightarrow> SpiceUsbredirChannelPrivate \<times> effect list" where
  "spice_usbredir_channel_up p =
     (if state p \<noteq> STATE_CONNECTING then
        (p, [G_return_if_fail_warning ''priv->state == STATE_CONNECTING''])
      else
        (p\<lparr>state := STATE_CONNECTED\<rparr>, [Usbredirhost_write_guest_data (host p)]))"

text \<open>
  Modelled from the spec: \<^verbatim>\<open>usbredirhost_read_guest_data\<close>, the engine's entry point
  that consumes guest data, belongs to the usbredir library and is not part of the file.
  The spec says that it "synchronously drains the view via the read callback
  potentially multiple times": the engine calls \<^verbatim>\<open>usbredir_read_callback\<close>, asking for
  \<open>req i\<close> bytes at its call number \<open>i\<close>, until a call gives it nothing. It returns what the
  calls returned (count and bytes), in order.
\<close>

function usbredirhost_read_guest_data ::
  "(nat \<Rightarrow> int) \<Rightarrow> nat \<Rightarrow> SpiceUsbredirChannelPrivate
    \<Rightarrow> (int \<times> uint8_t list) list \<times> SpiceUsbredirChannelPrivate" where
  "usbredirhost_read_guest_data req i p =
     (case usbredir_read_callback p (req i) of
        (n, bytes, p1) \<Rightarrow>
          if n \<le> 0 then ([(n, bytes)], p1)
          else (case usbredirhost_read_guest_data req (Suc i) p1 of
                  (rs, p2) \<Rightarrow> ((n, bytes) # rs, p2)))"
  by pat_completeness auto
termination
  by (relation "measure (\<lambda>(req, i, p). nat (read_buf_size p))")
     (auto simp: usbredir_read_callback_def Let_def split: if_splits)

declare usbredirhost_read_guest_data.simps [simp del]

text \<open>\<^verbatim>\<open>usbredir_handle_msg\<close>: the second argument is the raw payload of the message,
  \<^verbatim>\<open>spice_msg_in_raw\<close> gives its address and its size.\<close>

definition usbredir_handle_msg ::
  "(nat \<Rightarrow> int) \<Rightarrow> uint8_t list \<Rightarrow> SpiceUsbredirChannelPrivate
    \<Rightarrow> SpiceUsbredirChannelPrivate \<times> effect list" where
  "usbredir_handle_msg req payload p =
     (if host p = None then (p, [G_return_if_fail_warning ''priv->host != NULL''])
      else if read_buf p \<noteq> None then
        (p, [G_return_if_fail_warning ''priv->read_buf == NULL''])
      else
        let p1 = p\<lparr>read_buf := Some payload, read_buf_size := int (length payload)\<rparr>;
            (reads, p2) = usbredirhost_read_guest_data req 0 p1
        in (p2, [Usbredirhost_read_guest_data (host p1) reads]))"

text \<open>\<^verbatim>\<open>spice_marshaller_add_ref_full\<close> keeps the address it is given and the function
  that frees it; the marshaller calls that function, with the channel, once the message
  has been sent.\<close>

definition marshaller_free ::
  "SpiceUsbredirChannelPrivate \<Rightarrow> marshaller_item \<Rightarrow> effect list" where
  "marshaller_free p item =
     (case item of
        Add_ref_full data len Usbredir_free_write_cb_data \<Rightarrow> usbredir_free_write_cb_data p data)"

subsection \<open>Sequences of operations\<close>

datatype channel_op =
    Connect_async usb_env "libusb_context option" "libusb_device option" nat nat nat
  | Open_acl_cb usb_env SpiceUsbAclHelper "GError option"
  | Channel_up
  | Disconnect
  | Handle_msg "nat \<Rightarrow> int" "uint8_t list"
  | Write_flush

fun step ::
  "bool \<Rightarrow> channel_op \<Rightarrow> SpiceUsbredirChannelPrivate
    \<Rightarrow> SpiceUsbredirChannelPrivate \<times> effect list" where
  "step USE_POLKIT (Connect_async env ctx dev cancellable cb udata) p =
     spice_usbredir_channel_connect_async USE_POLKIT env ctx dev cancellable cb udata p"
| "step USE_POLKIT (Open_acl_cb env helper acl_res) p =
     (if USE_POLKIT then spice_usbredir_channel_open_acl_cb env helper acl_res p else (p, []))"
| "step USE_POLKIT Channel_up p = spice_usbredir_channel_up p"
| "step USE_POLKIT Disconnect p = spice_usbredir_channel_disconnect USE_POLKIT p"
| "step USE_POLKIT (Handle_msg req payload) p = usbredir_handle_msg req payload p"
| "step USE_POLKIT Write_flush p = usbredir_write_flush_callback p"

fun run ::
  "bool \<Rightarrow> channel_op list \<Rightarrow> SpiceUsbredirChannelPrivate
    \<Rightarrow> SpiceUsbredirChannelPrivate \<times> effect list" where
  "run USE_POLKIT [] p = (p, [])"
| "run USE_POLKIT (x # xs) p =
     (case step USE_POLKIT x p of
        (p1, e1) \<Rightarrow> (case run USE_POLKIT xs p1 of (p2, e2) \<Rightarrow> (p2, e1 @ e2)))"

text \<open>The change of the reference count of a device that a list of calls makes.\<close>

fun ref_delta :: "libusb_device \<Rightarrow> effect list \<Rightarrow> int" where
  "ref_delta d [] = 0"
| "ref_delta d (Libusb_ref_device x # es) = (if x = d then 1 else 0) + ref_delta d es"
| "ref_delta d (Libusb_unref_device x # es) = (if x = Some d then - 1 else 0) + ref_delta d es"
| "ref_delta d (e # es) = ref_delta d es"

text \<open>The results completed by a list of calls, in order.\<close>

fun completed :: "effect list \<Rightarrow> GSimpleAsyncResult option list" where
  "completed [] = []"
| "completed (G_simple_async_result_complete_in_idle r # es) = r # completed es"
| "completed (e # es) = completed es"

fun is_usbredirhost_close :: "effect \<Rightarrow> bool" where
  "is_usbredirhost_close (Usbredirhost_close h) = True"
| "is_usbredirhost_close e = False"

fun is_libusb_unref_device :: "effect \<Rightarrow> bool" where
  "is_libusb_unref_device (Libusb_unref_device d) = True"
| "is_libusb_unref_device e = False"


subsection \<open>Predicates of the properties\<close>

text \<open>The view \<open>read_buf\<close>, \<open>read_buf_size\<close> holds the bytes \<open>bs\<close>: the size is their
  number, the pointer is at them, or \<open>NULL\<close> when there are none left.\<close>

definition buffer_view :: "SpiceUsbredirChannelPrivate \<Rightarrow> uint8_t list \<Rightarrow> bool" where
  "buffer_view p bs = (read_buf_size p = int (length bs) \<and>
                (read_buf p = Some bs \<or> (bs = [] \<and> read_buf p = None)))"

text \<open>What the file expects of \<open>usbredirhost_open_full\<close>: when it returns an engine, it
  has logged nothing at the level of an error.\<close>

definition engine_contract :: "usb_env \<Rightarrow> bool" where
  "engine_contract env =
     (open_full_host env = None \<or>
      \<not> list_ex (\<lambda>l. fst l = usbredirparser_error) (open_full_log env))"

fun op_contract :: "channel_op \<Rightarrow> bool" where
  "op_contract (Open_acl_cb env helper acl_res) = engine_contract env"
| "op_contract x = True"

definition engine_iff_connecting :: "SpiceUsbredirChannelPrivate \<Rightarrow> bool" where
  "engine_iff_connecting p =
     ((host p \<noteq> None) = (state p = STATE_CONNECTING \<or> state p = STATE_CONNECTED))"

text \<open>A list of calls completes a result that carries an error.\<close>

definition failure_delivered :: "effect list \<Rightarrow> bool" where
  "failure_delivered es =
     list_ex (\<lambda>r. case r of None \<Rightarrow> False | Some r \<Rightarrow> error r \<noteq> None) (completed es)"



text \<open>The collaborators make the opening of the device fail: \<open>libusb_open\<close> returns an
  error code, or the engine is not made, or the event listening does not start.\<close>

definition open_device_fails :: "usb_env \<Rightarrow> bool" where
  "open_device_fails env =
     (libusb_open_rc env \<noteq> 0 \<or> open_full_host env = None \<or>
      start_event_listening_error env \<noteq> None)"

text \<open>What the file expects of an \<open>usbredirhost_open_full\<close> that returns \<open>NULL\<close>: it has
  logged its error (the \<open>g_return_val_if_fail\<close> of \<open>open_device\<close> says so).\<close>

definition engine_reports_failure :: "usb_env \<Rightarrow> bool" where
  "engine_reports_failure env =
     (open_full_host env \<noteq> None \<or>
      list_ex (\<lambda>l. fst l = usbredirparser_error) (open_full_log env))"

definition no_acl_state :: "SpiceUsbredirChannelPrivate \<Rightarrow> bool" where
  "no_acl_state p =
     (state p \<noteq> STATE_WAITING_FOR_ACL_HELPER \<and> state p \<noteq> STATE_DISCONNECTING)"

subsection \<open>Example inputs\<close>

text \<open>Collaborators that all succeed, and one whose ACL request is denied.\<close>

definition example_env :: usb_env where
  "example_env =
     \<lparr>libusb_open_rc = 0, libusb_open_handle = 7, open_full_host = Some 9,
      open_full_log = [], start_event_listening_error = None, acl_helper_new = 5\<rparr>"

definition example_connect :: channel_op where
  "example_connect = Connect_async example_env (Some 1) (Some 2) 0 3 4"

definition denied_error :: GError where
  "denied_error = GError SPICE_CLIENT_ERROR SPICE_CLIENT_ERROR_FAILED
                    (Literal ''Error setting USB device node ACL'')"

definition example_ops :: "channel_op list" where
  "example_ops = [example_connect, Open_acl_cb example_env 5 None, Channel_up]"

definition example_waiting :: SpiceUsbredirChannelPrivate where
  "example_waiting = fst (run True [example_connect] spice_usbredir_channel_init)"

definition example_disconnecting :: SpiceUsbredirChannelPrivate where
  "example_disconnecting =
     fst (run True [example_connect, Disconnect] spice_usbredir_channel_init)"



section \<open>Properties\<close>

subsection \<open>What the calls leave alone\<close>

lemma completed_append: "completed (xs @ ys) = completed xs @ completed ys"
  by (induction xs rule: completed.induct) simp_all

lemma ref_delta_append: "ref_delta d (xs @ ys) = ref_delta d xs + ref_delta d ys"
  by (induction d xs rule: ref_delta.induct) simp_all

lemma usbredir_log_quiet:
  "usbredir_log p err level msg = (err', es) \<Longrightarrow> completed es = [] \<and> ref_delta d es = 0"
  by (auto simp: usbredir_log_def split: if_splits log_level.splits)

lemma open_full_log_quiet:
  "usbredirhost_open_full_log p ls err = (err', es) \<Longrightarrow> completed es = [] \<and> ref_delta d es = 0"
proof (induction ls arbitrary: err err' es)
  case Nil
  then show ?case by simp
next
  case (Cons l ls)
  obtain level msg where l: "l = (level, msg)" by (cases l)
  obtain err1 e1 where a: "usbredir_log p err level msg = (err1, e1)"
    by (cases "usbredir_log p err level msg")
  obtain err2 e2 where b: "usbredirhost_open_full_log p ls err1 = (err2, e2)"
    by (cases "usbredirhost_open_full_log p ls err1")
  from Cons.prems l a b have "es = e1 @ e2" by simp
  with usbredir_log_quiet[OF a, of d] Cons.IH[OF b] show ?case
    by (simp add: completed_append ref_delta_append)
qed


lemma read_callback_frame:
  "usbredir_read_callback p n = (m, bytes, p1) \<Longrightarrow>
     p1\<lparr>read_buf_size := 0, read_buf := None\<rparr> = p\<lparr>read_buf_size := 0, read_buf := None\<rparr>"
  by (auto simp: usbredir_read_callback_def Let_def)

lemma read_guest_data_frame:
  "usbredirhost_read_guest_data req i p = (rs, p') \<Longrightarrow>
     p'\<lparr>read_buf_size := 0, read_buf := None\<rparr> = p\<lparr>read_buf_size := 0, read_buf := None\<rparr>"
proof (induction req i p arbitrary: rs p' rule: usbredirhost_read_guest_data.induct)
  case (1 req i p)
  obtain n bytes p1 where cb: "usbredir_read_callback p (req i) = (n, bytes, p1)"
    by (cases "usbredir_read_callback p (req i)")
  note p1 = read_callback_frame[OF cb]
  show ?case
  proof (cases "n \<le> 0")
    case True
    with cb "1.prems" have "p' = p1"
      by (subst (asm) usbredirhost_read_guest_data.simps) simp
    with p1 show ?thesis by simp
  next
    case False
    obtain rs2 p2 where r: "usbredirhost_read_guest_data req (Suc i) p1 = (rs2, p2)"
      by (cases "usbredirhost_read_guest_data req (Suc i) p1")
    note p2 = "1.IH"[OF cb[symmetric] refl False r]
    from cb False r "1.prems" have "p' = p2"
      by (subst (asm) usbredirhost_read_guest_data.simps) simp
    with p1 p2 show ?thesis by simp
  qed
qed

lemma handle_msg_frame:
  assumes "usbredir_handle_msg req payload p = (p', es)"
  shows "p'\<lparr>read_buf_size := 0, read_buf := None\<rparr> = p\<lparr>read_buf_size := 0, read_buf := None\<rparr>"
    and "\<exists>e. es = [e] \<and> \<not> is_usbredirhost_close e \<and> \<not> is_libusb_unref_device e"
    and "completed es = []" and "ref_delta d es = 0"
proof -
  obtain rs p2 where r: "usbredirhost_read_guest_data req 0
      (p\<lparr>read_buf := Some payload, read_buf_size := int (length payload)\<rparr>) = (rs, p2)"
    by (cases "usbredirhost_read_guest_data req 0
      (p\<lparr>read_buf := Some payload, read_buf_size := int (length payload)\<rparr>)")
  note f = read_guest_data_frame[OF r]
  from assms r f
  show "p'\<lparr>read_buf_size := 0, read_buf := None\<rparr> = p\<lparr>read_buf_size := 0, read_buf := None\<rparr>"
    by (auto simp: usbredir_handle_msg_def Let_def split: if_splits)
  from assms r show "\<exists>e. es = [e] \<and> \<not> is_usbredirhost_close e \<and> \<not> is_libusb_unref_device e"
    by (auto simp: usbredir_handle_msg_def Let_def split: if_splits)
  from assms r show "completed es = []"
    by (auto simp: usbredir_handle_msg_def Let_def split: if_splits)
  from assms r show "ref_delta d es = 0"
    by (auto simp: usbredir_handle_msg_def Let_def split: if_splits)
qed

lemma frame_fields:
  assumes "p'\<lparr>read_buf_size := 0, read_buf := None\<rparr> = p\<lparr>read_buf_size := 0, read_buf := None\<rparr>"
  shows "host p' = host p" "state p' = state p" "device p' = device p"
    "context' p' = context' p" "result p' = result p" "acl_helper p' = acl_helper p"
proof -
  show "host p' = host p" using arg_cong[OF assms, of host] by simp
  show "state p' = state p" using arg_cong[OF assms, of state] by simp
  show "device p' = device p" using arg_cong[OF assms, of device] by simp
  show "context' p' = context' p" using arg_cong[OF assms, of context'] by simp
  show "result p' = result p" using arg_cong[OF assms, of result] by simp
  show "acl_helper p' = acl_helper p" using arg_cong[OF assms, of acl_helper] by simp
qed


subsection \<open>Calls that change nothing\<close>

text \<open>
  C9: in every state but \<open>STATE_CONNECTED\<close> the write-flush callback is a no-op: it makes
  no call at all (so none into the engine) and returns the private structure as it was.
\<close>

theorem write_flush_noop_unless_connected:
  assumes "state p \<noteq> STATE_CONNECTED"
  shows "usbredir_write_flush_callback p = (p, [])"
  using assms by (simp add: usbredir_write_flush_callback_def)

theorem write_flush_noop_unless_connected_witness:
  "state spice_usbredir_channel_init \<noteq> STATE_CONNECTED \<and>
   usbredir_write_flush_callback spice_usbredir_channel_init = (spice_usbredir_channel_init, [])"
proof -
  have h: "state spice_usbredir_channel_init \<noteq> STATE_CONNECTED"
    by (simp add: spice_usbredir_channel_init_def)
  from h write_flush_noop_unless_connected [OF h] show ?thesis by simp
qed

text \<open>
  C1: a call of \<open>connect_async\<close> (with a context and a device) in a state other than
  \<open>STATE_DISCONNECTED\<close> completes its result at once with the error "channel is busy",
  for the callback the caller gave, and returns the private structure as it was: state,
  device and context are unchanged, and no reference to the device is taken.
\<close>

theorem connect_async_busy:
  assumes "state p \<noteq> STATE_DISCONNECTED"
  shows "spice_usbredir_channel_connect_async USE_POLKIT env (Some c) (Some d) cancellable
           cb udata p =
         (p, [SPICE_DEBUG ''connecting usb channel'',
              G_simple_async_result_complete_in_idle
                (Some \<lparr>callback = cb, user_data = udata, error = Some busy_error\<rparr>)])"
  using assms by (simp add: spice_usbredir_channel_connect_async_def)

theorem connect_async_busy_witness:
  "state example_waiting \<noteq> STATE_DISCONNECTED \<and>
   spice_usbredir_channel_connect_async True example_env (Some 1) (Some 2) 0 3 4
     example_waiting =
   (example_waiting,
    [SPICE_DEBUG ''connecting usb channel'',
     G_simple_async_result_complete_in_idle
       (Some \<lparr>callback = 3, user_data = 4, error = Some busy_error\<rparr>)])"
proof -
  have h: "state example_waiting \<noteq> STATE_DISCONNECTED" by code_simp
  from h connect_async_busy [OF h, of True example_env 1 2 0 3 4] show ?thesis by simp
qed

text \<open>
  C7: a redirection message that arrives while the engine is absent (\<open>host\<close> is \<open>NULL\<close>)
  or while a dispatch is in progress (\<open>read_buf\<close> is not \<open>NULL\<close>) is rejected by a failed
  \<open>g_return_if_fail\<close>: the only call made is GLib's critical warning, the engine is not
  called, and the private structure is as it was, so the payload is neither staked out
  for the engine nor kept for later.
\<close>

theorem handle_msg_rejected:
  assumes "host p = None \<or> read_buf p \<noteq> None"
  shows "\<exists>expr. usbredir_handle_msg req payload p = (p, [G_return_if_fail_warning expr])"
  using assms by (auto simp: usbredir_handle_msg_def)

theorem handle_msg_rejected_witness:
  "(host (spice_usbredir_channel_init\<lparr>host := Some 9, read_buf := Some [1, 2]\<rparr>) = None
    \<or> read_buf (spice_usbredir_channel_init\<lparr>host := Some 9, read_buf := Some [1, 2]\<rparr>) \<noteq> None)
   \<and> (\<exists>expr. usbredir_handle_msg (\<lambda>i. 4) [3, 4, 5]
               (spice_usbredir_channel_init\<lparr>host := Some 9, read_buf := Some [1, 2]\<rparr>) =
             (spice_usbredir_channel_init\<lparr>host := Some 9, read_buf := Some [1, 2]\<rparr>,
              [G_return_if_fail_warning expr]))"
proof -
  have h: "host (spice_usbredir_channel_init\<lparr>host := Some 9, read_buf := Some [1, 2]\<rparr>) = None
           \<or> read_buf (spice_usbredir_channel_init\<lparr>host := Some 9, read_buf := Some [1, 2]\<rparr>)
               \<noteq> None"
    by simp
  from h handle_msg_rejected [OF h, of "\<lambda>i. 4" "[3, 4, 5]"] show ?thesis by blast
qed

subsection \<open>The write callback\<close>

text \<open>
  C10: the write callback returns the count it was given, whatever it is. The one call
  it makes sends a message of type \<open>SPICE_MSGC_SPICEVMC_DATA\<close> whose marshaller holds a
  reference to the engine's buffer (its address and the count, no copy of the bytes)
  with \<open>usbredir_free_write_cb_data\<close> as the function that frees it; when the marshaller
  calls that function, it gives the buffer back to the engine with
  \<open>usbredirhost_free_write_buffer\<close>.
\<close>

theorem write_callback_accepts_all:
  "fst (usbredir_write_callback p data count) = count \<and>
   snd (usbredir_write_callback p data count) =
     [Spice_msg_out_send
        \<lparr>out_type = SPICE_MSGC_SPICEVMC_DATA,
         marshaller = [Add_ref_full data count Usbredir_free_write_cb_data]\<rparr>] \<and>
   marshaller_free q (Add_ref_full data count Usbredir_free_write_cb_data) =
     [Usbredirhost_free_write_buffer (host q) data]"
  by (simp add: usbredir_write_callback_def marshaller_free_def usbredir_free_write_cb_data_def)

subsection \<open>Inbound dispatch\<close>

lemma read_callback_min:
  "fst (usbredir_read_callback p n) = min n (read_buf_size p)"
  by (simp add: usbredir_read_callback_def Let_def min_def)

lemma read_callback_view:
  assumes "buffer_view p bs" "0 < n"
  shows "usbredir_read_callback p n =
           (min n (int (length bs)), take (nat (min n (int (length bs)))) bs,
            p\<lparr>read_buf_size := int (length (drop (nat (min n (int (length bs)))) bs)),
              read_buf := (if drop (nat (min n (int (length bs)))) bs = [] then None
                           else Some (drop (nat (min n (int (length bs)))) bs))\<rparr>)"
  using assms
  by (auto simp: usbredir_read_callback_def buffer_view_def Let_def min_def)

lemma read_guest_data_drains:
  assumes "buffer_view p bs" "\<forall>j. 0 < req j"
  shows "\<exists>rs. usbredirhost_read_guest_data req i p =
               (rs, p\<lparr>read_buf_size := 0, read_buf := None\<rparr>) \<and>
              concat (map snd rs) = bs \<and>
              sum_list (map fst rs) = int (length bs) \<and>
              (\<forall>x \<in> set rs. 0 \<le> fst x) \<and>
              (\<forall>k < length rs.
                 fst (rs ! k) = min (req (i + k)) (int (length bs) - sum_list (map fst (take k rs))) \<and>
                 snd (rs ! k) = take (nat (fst (rs ! k)))
                                  (drop (nat (sum_list (map fst (take k rs)))) bs))"
  using assms
proof (induction "length bs" arbitrary: bs p i rule: less_induct)
  case less
  let ?n = "min (req i) (int (length bs))"
  let ?rest = "drop (nat ?n) bs"
  let ?p1 = "p\<lparr>read_buf_size := int (length ?rest),
               read_buf := (if ?rest = [] then None else Some ?rest)\<rparr>"
  let ?fin = "p\<lparr>read_buf_size := 0, read_buf := None\<rparr>"
  have pos: "0 < req i" using less.prems by simp
  have cb: "usbredir_read_callback p (req i) = (?n, take (nat ?n) bs, ?p1)"
    using read_callback_view[OF less.prems(1) pos] .
  have unfold: "usbredirhost_read_guest_data req i p =
          (if ?n \<le> 0 then ([(?n, take (nat ?n) bs)], ?p1)
           else (case usbredirhost_read_guest_data req (Suc i) ?p1 of
                   (rs, p2) \<Rightarrow> ((?n, take (nat ?n) bs) # rs, p2)))"
    by (subst usbredirhost_read_guest_data.simps) (simp only: cb prod.case)
  show ?case
  proof (cases "bs = []")
    case True
    then have n0: "?n = 0" using pos by simp
    have "usbredirhost_read_guest_data req i p = ([(0, [])], ?fin)"
      unfolding unfold using True n0 by simp
    with True pos show ?thesis by (simp add: min_def)
  next
    case False
    then have npos: "0 < ?n" using pos by simp
    have nle: "nat ?n \<le> length bs" by simp
    have v1: "buffer_view ?p1 ?rest" by (simp add: buffer_view_def)
    have shorter: "length ?rest < length bs" using npos False by simp
    have fin: "?p1\<lparr>read_buf_size := 0, read_buf := None\<rparr> = ?fin" by simp
    from less.hyps[OF shorter v1 less.prems(2), of "Suc i"]
    obtain rs where
      r: "usbredirhost_read_guest_data req (Suc i) ?p1 = (rs, ?fin)"
      and c: "concat (map snd rs) = ?rest"
      and s: "sum_list (map fst rs) = int (length ?rest)"
      and g: "\<forall>x \<in> set rs. 0 \<le> fst x"
      and e: "\<forall>k < length rs.
                 fst (rs ! k) = min (req (Suc i + k)) (int (length ?rest) - sum_list (map fst (take k rs))) \<and>
                 snd (rs ! k) = take (nat (fst (rs ! k)))
                                  (drop (nat (sum_list (map fst (take k rs)))) ?rest)"
      unfolding fin by blast
    let ?rs = "(?n, take (nat ?n) bs) # rs"
    have nn: "\<not> ?n \<le> 0" using npos by linarith
    have run: "usbredirhost_read_guest_data req i p = (?rs, ?fin)"
      unfolding unfold by (simp only: nn if_False r prod.case)
    have c': "concat (map snd ?rs) = bs" using c by simp
    have s': "sum_list (map fst ?rs) = int (length bs)" using s nle pos by simp
    have g': "\<forall>x \<in> set ?rs. 0 \<le> fst x" using g npos by simp
    have e': "fst (?rs ! k) = min (req (i + k)) (int (length bs) - sum_list (map fst (take k ?rs))) \<and>
              snd (?rs ! k) = take (nat (fst (?rs ! k)))
                                  (drop (nat (sum_list (map fst (take k ?rs)))) bs)"
      if k: "k < length ?rs" for k
    proof (cases k)
      case 0
      then show ?thesis by simp
    next
      case (Suc m)
      then have m: "m < length rs" using k by simp
      have nonneg: "0 \<le> sum_list (map fst (take m rs))"
        using g by (intro sum_list_nonneg) (auto dest: in_set_takeD)
      from e m have
        "fst (rs ! m) = min (req (Suc i + m)) (int (length ?rest) - sum_list (map fst (take m rs)))"
        "snd (rs ! m) = take (nat (fst (rs ! m))) (drop (nat (sum_list (map fst (take m rs)))) ?rest)"
        by blast+
      then show ?thesis using Suc nle npos nonneg
        by (simp add: nat_add_distrib add.commute)
    qed
    from run c' s' g' e' show ?thesis by blast
  qed
qed

text \<open>
  C6: every call of the read callback returns the smaller of the count asked for and the
  count left in the view. When a message with a payload of \<open>L\<close> bytes is dispatched (the
  engine is there, no dispatch is in progress) to an engine that asks for a positive
  count at each call and reads until a call gives it nothing, call number \<open>k\<close> returns
  the smaller of the count asked for and the count then left, and copies that many
  bytes, the next ones of the payload; the counts returned add up to \<open>L\<close>, the bytes
  copied are the payload, and afterwards the view is empty: \<open>read_buf\<close> is \<open>NULL\<close> and
  \<open>read_buf_size\<close> is zero.
\<close>

theorem inbound_dispatch_drains:
  assumes "host p \<noteq> None" and "read_buf p = None" and "\<forall>j. 0 < req j"
  shows "fst (usbredir_read_callback q n) = min n (read_buf_size q) \<and>
         (\<exists>rs. usbredir_handle_msg req payload p =
                  (p\<lparr>read_buf_size := 0, read_buf := None\<rparr>,
                   [Usbredirhost_read_guest_data (host p) rs]) \<and>
                (\<forall>k < length rs.
                   fst (rs ! k) =
                     min (req k) (int (length payload) - sum_list (map fst (take k rs))) \<and>
                   snd (rs ! k) =
                     take (nat (fst (rs ! k)))
                       (drop (nat (sum_list (map fst (take k rs)))) payload) \<and>
                   int (length (snd (rs ! k))) = fst (rs ! k)) \<and>
                sum_list (map fst rs) = int (length payload) \<and>
                concat (map snd rs) = payload)"
proof -
  let ?p1 = "p\<lparr>read_buf := Some payload, read_buf_size := int (length payload)\<rparr>"
  have v: "buffer_view ?p1 payload" by (simp add: buffer_view_def)
  from read_guest_data_drains[OF v assms(3), of 0]
  obtain rs where
    r: "usbredirhost_read_guest_data req 0 ?p1 = (rs, ?p1\<lparr>read_buf_size := 0, read_buf := None\<rparr>)"
    and c: "concat (map snd rs) = payload"
    and s: "sum_list (map fst rs) = int (length payload)"
    and g: "\<forall>x \<in> set rs. 0 \<le> fst x"
    and e: "\<forall>k < length rs.
                 fst (rs ! k) = min (req (0 + k)) (int (length payload) - sum_list (map fst (take k rs))) \<and>
                 snd (rs ! k) = take (nat (fst (rs ! k)))
                                  (drop (nat (sum_list (map fst (take k rs)))) payload)"
    by blast
  have len: "int (length (snd (rs ! k))) = fst (rs ! k)" if k: "k < length rs" for k
  proof -
    let ?prev = "sum_list (map fst (take k rs))"
    have prev: "0 \<le> ?prev"
      using g by (intro sum_list_nonneg) (auto dest: in_set_takeD)
    from g k have nonneg: "0 \<le> fst (rs ! k)" by simp
    from e k have a: "fst (rs ! k) = min (req k) (int (length payload) - ?prev)"
      and b: "snd (rs ! k) = take (nat (fst (rs ! k))) (drop (nat ?prev) payload)"
      by simp_all
    from a nonneg have "fst (rs ! k) \<le> int (length payload) - ?prev" by simp
    with prev nonneg have "nat (fst (rs ! k)) \<le> length payload - nat ?prev" by linarith
    then have "length (snd (rs ! k)) = nat (fst (rs ! k))" by (subst b) simp
    with nonneg show ?thesis by simp
  qed
  have "usbredir_handle_msg req payload p =
          (p\<lparr>read_buf_size := 0, read_buf := None\<rparr>, [Usbredirhost_read_guest_data (host p) rs])"
    using assms(1,2) r by (simp add: usbredir_handle_msg_def)
  with c s e len read_callback_min show ?thesis by auto
qed

theorem inbound_dispatch_drains_witness:
  "host (spice_usbredir_channel_init\<lparr>host := Some 9\<rparr>) \<noteq> None \<and>
   read_buf (spice_usbredir_channel_init\<lparr>host := Some 9\<rparr>) = None \<and>
   (\<forall>j. (0::int) < (\<lambda>i. 2) j) \<and>
   usbredir_handle_msg (\<lambda>i. 2) [1, 2, 3] (spice_usbredir_channel_init\<lparr>host := Some 9\<rparr>) =
     (spice_usbredir_channel_init\<lparr>host := Some 9\<rparr>,
      [Usbredirhost_read_guest_data (Some 9) [(2, [1, 2]), (1, [3]), (0, [])]]) \<and>
   (\<exists>rs. usbredir_handle_msg (\<lambda>i. 2) [1, 2, 3] (spice_usbredir_channel_init\<lparr>host := Some 9\<rparr>) =
            (spice_usbredir_channel_init\<lparr>host := Some 9, read_buf_size := 0, read_buf := None\<rparr>,
             [Usbredirhost_read_guest_data (Some 9) rs]) \<and>
          sum_list (map fst rs) = 3 \<and> concat (map snd rs) = [1, 2, 3])"
proof -
  have h1: "host (spice_usbredir_channel_init\<lparr>host := Some 9\<rparr>) \<noteq> None" by simp
  have h2: "read_buf (spice_usbredir_channel_init\<lparr>host := Some 9\<rparr>) = None"
    by (simp add: spice_usbredir_channel_init_def)
  have h3: "\<forall>j. (0::int) < (\<lambda>i. 2) j" by simp
  have run: "usbredir_handle_msg (\<lambda>i. 2) [1, 2, 3] (spice_usbredir_channel_init\<lparr>host := Some 9\<rparr>) =
     (spice_usbredir_channel_init\<lparr>host := Some 9\<rparr>,
      [Usbredirhost_read_guest_data (Some 9) [(2, [1, 2]), (1, [3]), (0, [])]])"
    by code_simp
  from inbound_dispatch_drains [OF h1 h2 h3, of _ _ "[1, 2, 3]"] h1 h2 h3 run
  show ?thesis by auto
qed

subsection \<open>The engine and the state\<close>

lemma open_full_log_no_error:
  "\<not> list_ex (\<lambda>l. fst l = usbredirparser_error) ls \<Longrightarrow>
   usbredirhost_open_full_log p ls err = (err', es) \<Longrightarrow> err' = err"
proof (induction ls arbitrary: err' es)
  case Nil
  then show ?case by simp
next
  case (Cons l ls)
  obtain level msg where l: "l = (level, msg)" by (cases l)
  obtain err2 e2 where b: "usbredirhost_open_full_log p ls err = (err2, e2)"
    by (cases "usbredirhost_open_full_log p ls err")
  from Cons.prems l have "usbredir_log p err level msg = (err, snd (usbredir_log p err level msg))"
    by (simp add: usbredir_log_def)
  with Cons.prems l b have "err' = err2" by (simp split: prod.splits)
  moreover from Cons.IH[OF _ b] Cons.prems have "err2 = err" by simp
  ultimately show ?case by simp
qed

lemma open_device_engine:
  assumes "spice_usbredir_channel_open_device k env p err = (ok, p', err', es)"
    and "host p = None" and "state p \<noteq> STATE_CONNECTING" and "state p \<noteq> STATE_CONNECTED"
  shows "if ok then state p' = STATE_CONNECTING \<and> host p' \<noteq> None
         else state p' = state p \<and> host p' = None"
  using assms unfolding spice_usbredir_channel_open_device_def
  by (auto simp: Let_def split: if_splits prod.splits option.splits)


lemma open_device_error:
  assumes "spice_usbredir_channel_open_device k env p None = (ok, p', err', es)"
    and "engine_contract env"
  shows "ok \<Longrightarrow> err' = None"
  using assms unfolding spice_usbredir_channel_open_device_def engine_contract_def
  by (auto simp: Let_def g_set_error_def split: if_splits prod.splits option.splits
           dest: open_full_log_no_error)

lemma open_acl_cb_engine:
  assumes inv: "engine_iff_connecting p" and c: "engine_contract env"
    and r: "spice_usbredir_channel_open_acl_cb env helper acl_res p = (p', es)"
  shows "engine_iff_connecting p'"
proof (cases "Some helper = acl_helper p \<and>
              (state p = STATE_WAITING_FOR_ACL_HELPER \<or> state p = STATE_DISCONNECTING)")
  case False
  with r have "p' = p"
    by (auto simp: spice_usbredir_channel_open_acl_cb_def split: if_splits)
  with inv show ?thesis by simp
next
  case True
  with inv have h: "host p = None" by (auto simp: engine_iff_connecting_def)
  obtain ok p2 err2 e2 where
    o: "spice_usbredir_channel_open_device True env p None = (ok, p2, err2, e2)"
    by (cases "spice_usbredir_channel_open_device True env p None")
  from True have s: "state p \<noteq> STATE_CONNECTING" "state p \<noteq> STATE_CONNECTED" by auto
  note e = open_device_engine[OF o h s]
  note x = open_device_error[OF o c]
  from r True o e x h s show ?thesis
    by (auto simp: spice_usbredir_channel_open_acl_cb_def engine_iff_connecting_def Let_def
             split: if_splits)
qed

lemma connect_async_engine:
  assumes inv: "engine_iff_connecting p"
    and r: "spice_usbredir_channel_connect_async k env ctx dev cancellable cb udata p = (p', es)"
  shows "engine_iff_connecting p'"
proof (cases "ctx \<noteq> None \<and> dev \<noteq> None \<and> state p = STATE_DISCONNECTED")
  case False
  with r have "p' = p"
    by (auto simp: spice_usbredir_channel_connect_async_def split: option.splits)
  with inv show ?thesis by simp
next
  case True
  then obtain c d where cd: "ctx = Some c" "dev = Some d" by auto
  let ?p1 = "p\<lparr>context' := Some c, device := Some d\<rparr>"
  from True inv have h: "host ?p1 = None" by (auto simp: engine_iff_connecting_def)
  from True have s: "state ?p1 \<noteq> STATE_CONNECTING" "state ?p1 \<noteq> STATE_CONNECTED" by auto
  obtain ok p2 err2 e2 where
    o: "spice_usbredir_channel_open_device False env ?p1 None = (ok, p2, err2, e2)"
    by (cases "spice_usbredir_channel_open_device False env ?p1 None")
  note e = open_device_engine[OF o h s]
  from r True cd o e h show ?thesis
    by (auto simp: spice_usbredir_channel_connect_async_def engine_iff_connecting_def Let_def
             split: if_splits)
qed

lemma step_engine:
  assumes "engine_iff_connecting p" "op_contract x" "step k x p = (p', es)"
  shows "engine_iff_connecting p'"
proof (cases x)
  case (Connect_async env ctx dev cancellable cb udata)
  with assms connect_async_engine show ?thesis by simp
next
  case (Open_acl_cb env helper acl_res)
  with assms open_acl_cb_engine show ?thesis by (auto split: if_splits)
next
  case Channel_up
  with assms show ?thesis
    by (auto simp: spice_usbredir_channel_up_def engine_iff_connecting_def split: if_splits)
next
  case Disconnect
  with assms show ?thesis
    by (cases "state p")
       (auto simp: spice_usbredir_channel_disconnect_def engine_iff_connecting_def Let_def
             split: if_splits)
next
  case (Handle_msg req payload)
  with assms have "usbredir_handle_msg req payload p = (p', es)" by simp
  from frame_fields(1,2)[OF handle_msg_frame(1)[OF this]] assms(1) show ?thesis
    by (simp add: engine_iff_connecting_def)
next
  case Write_flush
  with assms show ?thesis
    by (auto simp: usbredir_write_flush_callback_def split: if_splits)
qed

lemma run_engine:
  assumes "engine_iff_connecting p" "list_all op_contract ops" "run k ops p = (p', es)"
  shows "engine_iff_connecting p'"
  using assms
proof (induction ops arbitrary: p p' es)
  case Nil
  then show ?case by simp
next
  case (Cons x xs)
  obtain p1 e1 where s: "step k x p = (p1, e1)" by (cases "step k x p")
  obtain p2 e2 where r: "run k xs p1 = (p2, e2)" by (cases "run k xs p1")
  from Cons.prems s r have "p' = p2" by simp
  moreover have "engine_iff_connecting p1"
    using step_engine[OF Cons.prems(1) _ s] Cons.prems(2) by simp
  ultimately show ?case using Cons.IH[OF _ _ r] Cons.prems(2) by simp
qed

text \<open>
  The assumption on the engine cannot be dropped with \<open>USE_POLKIT\<close>: the completion of
  the ACL helper tests the error that the log callback caught, not what the opening of
  the device returned. An engine that logged an error and was returned all the same
  would be kept in \<open>host\<close>, in \<open>STATE_DISCONNECTED\<close>.
\<close>

lemma engine_logging_error_on_success:
  "host (fst (run True
     [example_connect,
      Open_acl_cb (example_env\<lparr>open_full_log := [(usbredirparser_error, ''e'')]\<rparr>) 5 None]
     spice_usbredir_channel_init)) = Some 9 \<and>
   state (fst (run True
     [example_connect,
      Open_acl_cb (example_env\<lparr>open_full_log := [(usbredirparser_error, ''e'')]\<rparr>) 5 None]
     spice_usbredir_channel_init)) = STATE_DISCONNECTED"
  by code_simp

text \<open>
  C5: after any sequence of calls of \<open>connect_async\<close>, the completion of the ACL helper,
  \<open>channel_up\<close> and \<open>disconnect\<close> (and of the message handler and the write-flush
  callback) on a new channel, with or without \<open>USE_POLKIT\<close>, the engine pointer \<open>host\<close> is
  not \<open>NULL\<close> exactly when the state is \<open>STATE_CONNECTING\<close> or \<open>STATE_CONNECTED\<close>. The
  collaborators answer as they like, but for the engine, which logs no error when
  \<open>usbredirhost_open_full\<close> succeeds.
\<close>

theorem engine_exists_iff_connecting_or_connected:
  assumes "list_all op_contract ops"
  shows "(host (fst (run USE_POLKIT ops spice_usbredir_channel_init)) \<noteq> None) =
         (state (fst (run USE_POLKIT ops spice_usbredir_channel_init)) = STATE_CONNECTING \<or>
          state (fst (run USE_POLKIT ops spice_usbredir_channel_init)) = STATE_CONNECTED)"
proof -
  have "engine_iff_connecting spice_usbredir_channel_init"
    by (simp add: engine_iff_connecting_def spice_usbredir_channel_init_def)
  from run_engine[OF this assms, of USE_POLKIT] show ?thesis
    by (cases "run USE_POLKIT ops spice_usbredir_channel_init")
       (simp add: engine_iff_connecting_def)
qed

theorem engine_exists_iff_connecting_or_connected_witness:
  "list_all op_contract example_ops \<and>
   state (fst (run True example_ops spice_usbredir_channel_init)) = STATE_CONNECTED \<and>
   ((host (fst (run True example_ops spice_usbredir_channel_init)) \<noteq> None) =
    (state (fst (run True example_ops spice_usbredir_channel_init)) = STATE_CONNECTING \<or>
     state (fst (run True example_ops spice_usbredir_channel_init)) = STATE_CONNECTED))"
proof -
  have h: "list_all op_contract example_ops"
    by (simp add: example_ops_def example_connect_def example_env_def engine_contract_def)
  have s: "state (fst (run True example_ops spice_usbredir_channel_init)) = STATE_CONNECTED"
    by code_simp
  from h s engine_exists_iff_connecting_or_connected [OF h, of True] show ?thesis by blast
qed

subsection \<open>Connecting without the ACL helper\<close>

text \<open>
  C8: without \<open>USE_POLKIT\<close>, a call of \<open>connect_async\<close> in \<open>STATE_DISCONNECTED\<close> for which
  \<open>libusb_open\<close> succeeds, the engine is made and the event listening starts completes
  its result once, with no error, and leaves the state \<open>STATE_CONNECTING\<close> with the
  engine in \<open>host\<close>. \<open>channel_up\<close> then sets the state to \<open>STATE_CONNECTED\<close> and calls
  \<open>usbredirhost_write_guest_data\<close> on the engine at once; in any state but
  \<open>STATE_CONNECTING\<close> it is refused by \<open>g_return_if_fail\<close> and changes nothing.
\<close>

theorem connect_without_acl_then_channel_up:
  assumes "state p = STATE_DISCONNECTED" and "libusb_open_rc env = 0"
    and "open_full_host env = Some h" and "start_event_listening_error env = None"
  shows "(\<exists>es. spice_usbredir_channel_connect_async False env (Some c) (Some d) cancellable
                 cb udata p =
               (p\<lparr>context' := Some c, device := Some d, catch_error := False,
                   host := Some h, state := STATE_CONNECTING\<rparr>, es) \<and>
              completed es = [Some \<lparr>callback = cb, user_data = udata, error = None\<rparr>] \<and>
              spice_usbredir_channel_up
                (fst (spice_usbredir_channel_connect_async False env (Some c) (Some d)
                        cancellable cb udata p)) =
               (p\<lparr>context' := Some c, device := Some d, catch_error := False,
                   host := Some h, state := STATE_CONNECTED\<rparr>,
                [Usbredirhost_write_guest_data (Some h)])) \<and>
         (state q \<noteq> STATE_CONNECTING \<longrightarrow>
            spice_usbredir_channel_up q =
              (q, [G_return_if_fail_warning ''priv->state == STATE_CONNECTING'']))"
proof -
  let ?p1 = "p\<lparr>context' := Some c, device := Some d\<rparr>"
  obtain err1 logged where
    l: "usbredirhost_open_full_log (?p1\<lparr>catch_error := True\<rparr>) (open_full_log env) None
          = (err1, logged)"
    by (cases "usbredirhost_open_full_log (?p1\<lparr>catch_error := True\<rparr>) (open_full_log env) None")
  from open_full_log_quiet[OF l] have q: "completed logged = []" by simp
  have o: "spice_usbredir_channel_open_device False env ?p1 None =
          (True, ?p1\<lparr>catch_error := False, host := Some h, state := STATE_CONNECTING\<rparr>, err1,
           [Libusb_open (Some d), Usbredirhost_open_full (Some c) (libusb_open_handle env)]
           @ logged @ [Start_event_listening, Spice_channel_connect])"
    using assms l by (simp add: spice_usbredir_channel_open_device_def)
  have "spice_usbredir_channel_connect_async False env (Some c) (Some d) cancellable cb udata p =
          (p\<lparr>context' := Some c, device := Some d, catch_error := False,
                   host := Some h, state := STATE_CONNECTING\<rparr>,
           [SPICE_DEBUG ''connecting usb channel'', Libusb_ref_device d,
            Libusb_open (Some d), Usbredirhost_open_full (Some c) (libusb_open_handle env)]
           @ logged @ [Start_event_listening, Spice_channel_connect,
            G_simple_async_result_complete_in_idle
              (Some \<lparr>callback = cb, user_data = udata, error = None\<rparr>)])"
    using assms(1) o by (simp add: spice_usbredir_channel_connect_async_def)
  then show ?thesis using q
    by (simp add: completed_append spice_usbredir_channel_up_def)
qed

theorem connect_without_acl_then_channel_up_witness:
  "state spice_usbredir_channel_init = STATE_DISCONNECTED \<and>
   libusb_open_rc example_env = 0 \<and> open_full_host example_env = Some 9 \<and>
   start_event_listening_error example_env = None \<and>
   (\<exists>es. spice_usbredir_channel_connect_async False example_env (Some 1) (Some 2) 0 3 4
            spice_usbredir_channel_init =
          (spice_usbredir_channel_init\<lparr>context' := Some 1, device := Some 2,
             catch_error := False, host := Some 9, state := STATE_CONNECTING\<rparr>, es) \<and>
         completed es = [Some \<lparr>callback = 3, user_data = 4, error = None\<rparr>] \<and>
         spice_usbredir_channel_up
           (fst (spice_usbredir_channel_connect_async False example_env (Some 1) (Some 2) 0 3 4
                   spice_usbredir_channel_init)) =
          (spice_usbredir_channel_init\<lparr>context' := Some 1, device := Some 2,
             catch_error := False, host := Some 9, state := STATE_CONNECTED\<rparr>,
           [Usbredirhost_write_guest_data (Some 9)])) \<and>
   state spice_usbredir_channel_init \<noteq> STATE_CONNECTING \<and>
   spice_usbredir_channel_up spice_usbredir_channel_init =
     (spice_usbredir_channel_init,
      [G_return_if_fail_warning ''priv->state == STATE_CONNECTING''])"
proof -
  have h1: "state spice_usbredir_channel_init = STATE_DISCONNECTED"
    by (simp add: spice_usbredir_channel_init_def)
  have h2: "libusb_open_rc example_env = 0" by (simp add: example_env_def)
  have h3: "open_full_host example_env = Some 9" by (simp add: example_env_def)
  have h4: "start_event_listening_error example_env = None" by (simp add: example_env_def)
  have h5: "state spice_usbredir_channel_init \<noteq> STATE_CONNECTING"
    by (simp add: spice_usbredir_channel_init_def)
  note t = connect_without_acl_then_channel_up [OF h1 h2 h3 h4,
      where c = 1 and d = 2 and cancellable = 0 and cb = 3 and udata = 4
        and q = spice_usbredir_channel_init]
  from h1 h2 h3 h4 h5 t [THEN conjunct1] t [THEN conjunct2, THEN mp, OF h5]
  show ?thesis by blast
qed

subsection \<open>The completion of the ACL helper while disconnecting\<close>

text \<open>
  C4, as the claim states it, fails: with the state \<open>STATE_DISCONNECTING\<close>, reached by
  \<open>connect_async\<close> and \<open>disconnect\<close> on a new channel, a helper that reports its own error
  has that error delivered, not the cancellation.
\<close>

theorem open_acl_cb_while_disconnecting_counterexample:
  "state (fst (run True [example_connect, Disconnect] spice_usbredir_channel_init))
     = STATE_DISCONNECTING \<and>
   completed (snd (spice_usbredir_channel_open_acl_cb example_env 5 (Some denied_error)
     (fst (run True [example_connect, Disconnect] spice_usbredir_channel_init))))
     = [Some \<lparr>callback = 3, user_data = 4, error = Some denied_error\<rparr>] \<and>
   denied_error \<noteq> cancelled_error"
  by code_simp

text \<open>
  C4, amended: when the completion of the ACL helper fires in \<open>STATE_DISCONNECTING\<close>, it
  makes the cancellation error if the helper reports success and keeps the helper's own
  error if it reports one; either way it releases the device reference, clears device and
  context, sets the state to \<open>STATE_DISCONNECTED\<close>, closes the ACL helper, sets
  \<open>inhibit-keyboard-grab\<close> back to false, and then completes the pending result of the
  connect, once, with that error.
\<close>

theorem open_acl_cb_while_disconnecting:
  assumes "state p = STATE_DISCONNECTING" and "acl_helper p = Some helper"
    and "result p = Some r"
  shows "spice_usbredir_channel_open_acl_cb env helper acl_res p =
           (p\<lparr>device := None, context' := None, state := STATE_DISCONNECTED,
               acl_helper := None, result := None\<rparr>,
            [Libusb_unref_device (device p),
             Spice_usb_acl_helper_close_acl (Some helper),
             Set_inhibit_keyboard_grab False,
             G_simple_async_result_complete_in_idle
               (Some (r\<lparr>error := Some (case acl_res of None \<Rightarrow> cancelled_error
                                           | Some e \<Rightarrow> e)\<rparr>))])"
  using assms
  by (cases acl_res)
     (simp_all add: spice_usbredir_channel_open_acl_cb_def g_simple_async_result_take_error_def)

theorem open_acl_cb_while_disconnecting_witness:
  "state example_disconnecting = STATE_DISCONNECTING \<and>
   acl_helper example_disconnecting = Some 5 \<and>
   result example_disconnecting = Some \<lparr>callback = 3, user_data = 4, error = None\<rparr> \<and>
   spice_usbredir_channel_open_acl_cb example_env 5 None example_disconnecting =
     (example_disconnecting\<lparr>device := None, context' := None, state := STATE_DISCONNECTED,
        acl_helper := None, result := None\<rparr>,
      [Libusb_unref_device (device example_disconnecting),
       Spice_usb_acl_helper_close_acl (Some 5),
       Set_inhibit_keyboard_grab False,
       G_simple_async_result_complete_in_idle
         (Some \<lparr>callback = 3, user_data = 4, error = Some cancelled_error\<rparr>)])"
proof -
  have h1: "state example_disconnecting = STATE_DISCONNECTING" by code_simp
  have h2: "acl_helper example_disconnecting = Some 5" by code_simp
  have h3: "result example_disconnecting = Some \<lparr>callback = 3, user_data = 4, error = None\<rparr>"
    by code_simp
  from h1 h2 h3 open_acl_cb_while_disconnecting [OF h1 h2 h3, of example_env None]
  show ?thesis by simp
qed

subsection \<open>Disconnecting twice\<close>

lemma open_device_state:
  assumes "spice_usbredir_channel_open_device k env p err = (ok, p', err', es)"
  shows "state p' = state p \<or> state p' = STATE_CONNECTING"
  using assms unfolding spice_usbredir_channel_open_device_def
  by (auto simp: Let_def split: if_splits prod.splits option.splits)

lemma step_no_acl_state:
  assumes "no_acl_state p" "step False x p = (p', es)"
  shows "no_acl_state p'"
proof (cases x)
  case (Connect_async env ctx dev cancellable cb udata)
  show ?thesis
  proof (cases "ctx \<noteq> None \<and> dev \<noteq> None \<and> state p = STATE_DISCONNECTED")
    case False
    with assms Connect_async have "p' = p"
      by (auto simp: spice_usbredir_channel_connect_async_def split: option.splits)
    with assms show ?thesis by simp
  next
    case True
    then obtain c d where cd: "ctx = Some c" "dev = Some d" by auto
    let ?p1 = "p\<lparr>context' := Some c, device := Some d\<rparr>"
    obtain ok p2 err2 e2 where
      o: "spice_usbredir_channel_open_device False env ?p1 None = (ok, p2, err2, e2)"
      by (cases "spice_usbredir_channel_open_device False env ?p1 None")
    from open_device_state[OF o] True assms Connect_async cd o show ?thesis
      by (auto simp: spice_usbredir_channel_connect_async_def no_acl_state_def Let_def
               split: if_splits)
  qed
next
  case (Open_acl_cb env helper acl_res)
  with assms show ?thesis by simp
next
  case Channel_up
  with assms show ?thesis
    by (auto simp: spice_usbredir_channel_up_def no_acl_state_def split: if_splits)
next
  case Disconnect
  with assms show ?thesis
    by (cases "state p")
       (auto simp: spice_usbredir_channel_disconnect_def no_acl_state_def Let_def
             split: if_splits)
next
  case (Handle_msg req payload)
  with assms have "usbredir_handle_msg req payload p = (p', es)" by simp
  from frame_fields(2)[OF handle_msg_frame(1)[OF this]] assms(1) show ?thesis
    by (simp add: no_acl_state_def)
next
  case Write_flush
  with assms show ?thesis
    by (auto simp: usbredir_write_flush_callback_def split: if_splits)
qed

lemma run_no_acl_state:
  assumes "no_acl_state p" "run False ops p = (p', es)"
  shows "no_acl_state p'"
  using assms
proof (induction ops arbitrary: p p' es)
  case Nil
  then show ?case by simp
next
  case (Cons x xs)
  obtain p1 e1 where s: "step False x p = (p1, e1)" by (cases "step False x p")
  obtain p2 e2 where r: "run False xs p1 = (p2, e2)" by (cases "run False xs p1")
  from Cons.prems s r have "p' = p2" by simp
  with Cons.IH[OF step_no_acl_state[OF Cons.prems(1) s] r] show ?case by simp
qed

lemma disconnect_twice_any:
  assumes "spice_usbredir_channel_disconnect k p = (p1, e1)"
    and "spice_usbredir_channel_disconnect k p1 = (p2, e2)"
    and "k \<or> state p \<noteq> STATE_WAITING_FOR_ACL_HELPER"
  shows "p2 = p1 \<and> e2 = [SPICE_DEBUG ''disconnecting usb channel''] \<and>
         state p2 = (if state p = STATE_WAITING_FOR_ACL_HELPER \<or> state p = STATE_DISCONNECTING
                     then STATE_DISCONNECTING else STATE_DISCONNECTED) \<and>
         length (filter is_usbredirhost_close (e1 @ e2)) \<le> 1 \<and>
         length (filter is_libusb_unref_device (e1 @ e2)) \<le> 1"
  using assms
  by (cases "state p")
     (auto simp: spice_usbredir_channel_disconnect_def Let_def split: if_splits)

text \<open>
  C2, as the claim states it, fails: with \<open>USE_POLKIT\<close>, after \<open>connect_async\<close> on a new
  channel the state is \<open>STATE_WAITING_FOR_ACL_HELPER\<close>, and two calls of \<open>disconnect\<close> leave
  \<open>STATE_DISCONNECTING\<close>, not \<open>STATE_DISCONNECTED\<close>.
\<close>

theorem disconnect_twice_counterexample:
  "state (fst (spice_usbredir_channel_disconnect True
        (fst (spice_usbredir_channel_disconnect True
           (fst (run True [example_connect] spice_usbredir_channel_init))))))
     \<noteq> STATE_DISCONNECTED"
  by code_simp

text \<open>
  C2, amended: \<open>disconnect\<close> is total, and in every state a new channel can reach, a
  second call changes nothing and makes no call but its debug line. After the two calls
  the state is \<open>STATE_DISCONNECTED\<close>, unless the first call found
  \<open>STATE_WAITING_FOR_ACL_HELPER\<close> or \<open>STATE_DISCONNECTING\<close> (states that exist with
  \<open>USE_POLKIT\<close> only), where it is \<open>STATE_DISCONNECTING\<close>. The two calls close the engine
  at most once and release the device reference at most once.
\<close>

theorem disconnect_twice:
  assumes "run USE_POLKIT ops spice_usbredir_channel_init = (p, es)"
    and "spice_usbredir_channel_disconnect USE_POLKIT p = (p1, e1)"
    and "spice_usbredir_channel_disconnect USE_POLKIT p1 = (p2, e2)"
  shows "p2 = p1 \<and> e2 = [SPICE_DEBUG ''disconnecting usb channel''] \<and>
         state p2 = (if state p = STATE_WAITING_FOR_ACL_HELPER \<or> state p = STATE_DISCONNECTING
                     then STATE_DISCONNECTING else STATE_DISCONNECTED) \<and>
         (USE_POLKIT \<or> state p2 = STATE_DISCONNECTED) \<and>
         length (filter is_usbredirhost_close (e1 @ e2)) \<le> 1 \<and>
         length (filter is_libusb_unref_device (e1 @ e2)) \<le> 1"
proof -
  have n: "USE_POLKIT \<or> no_acl_state p"
  proof (cases USE_POLKIT)
    case True
    then show ?thesis by simp
  next
    case False
    have "no_acl_state spice_usbredir_channel_init"
      by (simp add: no_acl_state_def spice_usbredir_channel_init_def)
    from run_no_acl_state[OF this] assms(1) False show ?thesis by simp
  qed
  then have "USE_POLKIT \<or> state p \<noteq> STATE_WAITING_FOR_ACL_HELPER"
    by (auto simp: no_acl_state_def)
  from disconnect_twice_any[OF assms(2,3) this] n show ?thesis
    by (auto simp: no_acl_state_def)
qed

theorem disconnect_twice_witness:
  "run True [example_connect] spice_usbredir_channel_init =
     (example_waiting, snd (run True [example_connect] spice_usbredir_channel_init)) \<and>
   state example_waiting = STATE_WAITING_FOR_ACL_HELPER \<and>
   state (fst (spice_usbredir_channel_disconnect True
             (fst (spice_usbredir_channel_disconnect True example_waiting))))
     = STATE_DISCONNECTING \<and>
   length (filter is_usbredirhost_close
      (snd (spice_usbredir_channel_disconnect True example_waiting) @
       snd (spice_usbredir_channel_disconnect True
             (fst (spice_usbredir_channel_disconnect True example_waiting))))) \<le> 1 \<and>
   length (filter is_libusb_unref_device
      (snd (spice_usbredir_channel_disconnect True example_waiting) @
       snd (spice_usbredir_channel_disconnect True
             (fst (spice_usbredir_channel_disconnect True example_waiting))))) \<le> 1"
proof -
  have r: "run True [example_connect] spice_usbredir_channel_init =
     (example_waiting, snd (run True [example_connect] spice_usbredir_channel_init))"
    by (simp add: example_waiting_def)
  have s: "state example_waiting = STATE_WAITING_FOR_ACL_HELPER"
    by code_simp
  note t = disconnect_twice [OF r surjective_pairing surjective_pairing]
  note st = t [THEN conjunct2, THEN conjunct2, THEN conjunct1]
  note cl = t [THEN conjunct2, THEN conjunct2, THEN conjunct2, THEN conjunct2, THEN conjunct1]
  note un = t [THEN conjunct2, THEN conjunct2, THEN conjunct2, THEN conjunct2, THEN conjunct2]
  from s st have "state (fst (spice_usbredir_channel_disconnect True
             (fst (spice_usbredir_channel_disconnect True example_waiting))))
     = STATE_DISCONNECTING" by simp
  with r s cl un show ?thesis by blast
qed

subsection \<open>The device reference of a failed connect\<close>








text \<open>
  The condition on the engine in the theorem below is needed with \<open>USE_POLKIT\<close> only,
  and only for the failure to make the engine: the completion of the ACL helper tests
  the error that the log callback caught. An engine that returned \<open>NULL\<close> without
  logging an error (what \<open>open_device\<close> itself reports as a failed
  \<open>g_return_val_if_fail\<close>) has no error delivered there: the channel stays in
  \<open>STATE_WAITING_FOR_ACL_HELPER\<close> and keeps its reference.
\<close>

lemma engine_failing_without_error:
  "open_device_fails (example_env\<lparr>open_full_host := None\<rparr>) \<and>
   \<not> engine_reports_failure (example_env\<lparr>open_full_host := None\<rparr>) \<and>
   \<not> failure_delivered (snd (run True
     [example_connect, Open_acl_cb (example_env\<lparr>open_full_host := None\<rparr>) 5 None]
     spice_usbredir_channel_init)) \<and>
   ref_delta 2 (snd (run True
     [example_connect, Open_acl_cb (example_env\<lparr>open_full_host := None\<rparr>) 5 None]
     spice_usbredir_channel_init)) = 1 \<and>
   state (fst (run True
     [example_connect, Open_acl_cb (example_env\<lparr>open_full_host := None\<rparr>) 5 None]
     spice_usbredir_channel_init)) = STATE_WAITING_FOR_ACL_HELPER"
  by code_simp



end
